theory Spec2Isabelle
  imports Main "HOL-Library.Sublist"
begin

section \<open>Go values used by the Elasticsearch key-value store\<close>

text \<open>
  A Go \<open>string\<close> is a sequence of bytes and so is an Isabelle \<open>string\<close> (a \<open>char\<close> is
  a byte). A Go \<open>[]byte\<close> is either the nil slice or a sequence of bytes: \<open>None\<close> is nil.
  The conversion \<open>string(value)\<close> of \<open>Put\<close> and \<open>PutAll\<close> sends nil and the empty slice
  to the empty string.
\<close>

type_synonym byteslice = "string option"

definition string_of_bytes :: "byteslice \<Rightarrow> string" where
  "string_of_bytes v = (case v of None \<Rightarrow> [] | Some bs \<Rightarrow> bs)"

text \<open>A call either returns its results or panics.\<close>

datatype 'a outcome = Return 'a | Panic

text \<open>
  A non-nil Go \<open>error\<close> is either an \<open>*elastic.Error\<close>, of which the store reads the
  field \<open>Status\<close> and the text of its method \<open>Error()\<close>, or a value of another type
  (the result of \<open>fmt.Errorf\<close>, a network error), of which only the text is read.
  The method \<open>Error()\<close> belongs to the client library: its text is data of the value here.
  A nil \<open>error\<close> is \<open>None :: error option\<close>.
\<close>

datatype error = ElasticError (Status: int) (Text: string) | OtherError string

fun Error_method :: "error \<Rightarrow> string" where
  "Error_method (ElasticError st txt) = txt"
| "Error_method (OtherError txt) = txt"

text \<open>\<open>fmt.Sprintf("%s", err)\<close>: the text of \<open>Error()\<close>, and Go's rendering of a nil interface.\<close>

definition Sprintf_s :: "error option \<Rightarrow> string" where
  "Sprintf_s err = (case err of None \<Rightarrow> ''%!s(<nil>)'' | Some e \<Rightarrow> Error_method e)"

text \<open>\<open>%d\<close> of \<open>fmt.Sprintf\<close>: the decimal digits, after a minus sign when negative.\<close>

fun Itoa_nat :: "nat \<Rightarrow> string" where
  "Itoa_nat n = (if n < 10 then [''0123456789'' ! n]
                 else Itoa_nat (n div 10) @ [''0123456789'' ! (n mod 10)])"

declare Itoa_nat.simps [simp del]

definition Sprintf_d :: "int \<Rightarrow> string" where
  "Sprintf_d i = (if i < 0 then ''-'' @ Itoa_nat (nat (- i)) else Itoa_nat (nat i))"

section \<open>Data of the store and of the client's replies\<close>

record KeyValue =
  Key :: string
  Value :: byteslice

text \<open>The zero value of \<open>KeyValue\<close>, which \<open>make([]KeyValue, n)\<close> puts at every index.\<close>

definition zeroKeyValue :: KeyValue where
  "zeroKeyValue = \<lparr>Key = [], Value = None\<rparr>"

text \<open>
  \<open>elastic.GetResult\<close>: the fields the store reads. \<open>Source\<close> is a pointer to the raw
  JSON message, nil (\<open>None\<close>) or pointing to a byte slice.
\<close>

record GetResult =
  Found :: bool
  Source :: "byteslice option"

record MgetResponse =
  Docs :: "GetResult list"

record ErrorDetails =
  Reason :: string

text \<open>
  \<open>elastic.BulkResponseItem\<close> with its pointer \<open>Error\<close> to the error details, and
  \<open>elastic.BulkResponse\<close>: the flag \<open>Errors\<close> and the list that its method
  \<open>Failed()\<close> returns (a method of the client library, taken as data of the reply).
\<close>

record BulkResponseItem =
  Id :: string
  Error :: "ErrorDetails option"

record BulkResponse =
  Errors :: bool
  Failed :: "BulkResponseItem list"

text \<open>
  The store: the index and the type every request is addressed to. Its settings, its
  context and its logger play no part in the five operations; its client is the
  argument \<open>c\<close> of each operation below.
\<close>

record ElasticsearchKeyValueStore =
  indexName :: string
  typeName :: string

section \<open>The client\<close>

text \<open>
  A document is addressed by index, type and id. The client is a parameter: each
  request builder of the library, run by its \<open>Do\<close>, is a function from the request and the
  backend's state to the reply and the new state. \<open>Do\<close> returns a pointer to the reply and
  an error; the store discards the reply of an index and of a delete request, so these
  two return the error alone.
\<close>

type_synonym doc_addr = "string \<times> string \<times> string"

record 's Client =
  GetDo :: "doc_addr \<Rightarrow> 's \<Rightarrow> (GetResult option \<times> error option) \<times> 's"
  MultiGetDo :: "doc_addr list \<Rightarrow> 's \<Rightarrow> (MgetResponse option \<times> error option) \<times> 's"
  IndexDo :: "doc_addr \<Rightarrow> string \<Rightarrow> 's \<Rightarrow> error option \<times> 's"
  BulkDo :: "(doc_addr \<times> string) list \<Rightarrow> 's \<Rightarrow> (BulkResponse option \<times> error option) \<times> 's"
  DeleteDo :: "doc_addr \<Rightarrow> 's \<Rightarrow> error option \<times> 's"

section \<open>The operations of the store\<close>

definition maxBulkErrorReasons :: int where
  "maxBulkErrorReasons = 5"

text \<open>\<open>Get\<close>: one get request; a nil \<open>rawValue\<close> or a nil \<open>Source\<close> that is read panics.\<close>

definition Get ::
  "ElasticsearchKeyValueStore \<Rightarrow> 's Client \<Rightarrow> string \<Rightarrow> 's \<Rightarrow> (byteslice \<times> error option) outcome \<times> 's" where
  "Get st c key s =
     (case GetDo c (indexName st, typeName st, key) s of
        ((rawValue, err), s') \<Rightarrow>
          if Sprintf_s err = ''elastic: Error 404 (Not Found)'' then (Return (None, None), s')
          else if err \<noteq> None then (Return (None, err), s')
          else (case rawValue of
                  None \<Rightarrow> (Panic, s')
                | Some r \<Rightarrow>
                    if \<not> Found r then (Return (None, None), s')
                    else (case Source r of
                            None \<Rightarrow> (Panic, s')
                          | Some src \<Rightarrow> (Return (src, None), s'))))"

text \<open>
  The loop of \<open>GetAll\<close> over \<open>response.Docs\<close>, with the index \<open>i\<close> of the current
  document and the slice \<open>kvs\<close> filled so far. \<open>kvs\<close> has the length of \<open>keys\<close>, so
  \<open>keys[i]\<close> and \<open>kvs[i]\<close> are in range together and panic together otherwise.
\<close>

fun GetAll_loop :: "string list \<Rightarrow> GetResult list \<Rightarrow> nat \<Rightarrow> KeyValue list \<Rightarrow> KeyValue list outcome" where
  "GetAll_loop keys [] i kvs = Return kvs"
| "GetAll_loop keys (doc # docs) i kvs =
     (if Found doc then
        (if i < length keys \<and> i < length kvs then
           (case Source doc of
              None \<Rightarrow> Panic
            | Some src \<Rightarrow> GetAll_loop keys docs (i + 1) (kvs[i := \<lparr>Key = keys ! i, Value = src\<rparr>]))
         else Panic)
      else GetAll_loop keys docs (i + 1) kvs)"

definition GetAll ::
  "ElasticsearchKeyValueStore \<Rightarrow> 's Client \<Rightarrow> string list \<Rightarrow> 's \<Rightarrow> (KeyValue list option \<times> error option) outcome \<times> 's" where
  "GetAll st c keys s =
     (if length keys = 0 then (Return (None, None), s)
      else
        (case MultiGetDo c (map (\<lambda>key. (indexName st, typeName st, key)) keys) s of
           ((response, err), s') \<Rightarrow>
             if err \<noteq> None then (Return (None, err), s')
             else (case response of
                     None \<Rightarrow> (Panic, s')
                   | Some r \<Rightarrow>
                       (case GetAll_loop keys (Docs r) 0 (replicate (length keys) zeroKeyValue) of
                          Panic \<Rightarrow> (Panic, s')
                        | Return kvs \<Rightarrow> (Return (Some kvs, None), s')))))"

definition Put ::
  "ElasticsearchKeyValueStore \<Rightarrow> 's Client \<Rightarrow> string \<Rightarrow> byteslice \<Rightarrow> 's \<Rightarrow> error option outcome \<times> 's" where
  "Put st c key v s =
     (case IndexDo c (indexName st, typeName st, key) (string_of_bytes v) s of
        (err, s') \<Rightarrow> (Return err, s'))"

text \<open>
  \<open>createBulkError\<close>: the loop over \<open>response.Failed()\<close> with the index \<open>i\<close>; \<open>n\<close> is
  \<open>len(failed)\<close>. The tail is appended, and the loop left, at index
  \<open>maxBulkErrorReasons - 1\<close>.
\<close>

definition reason_line :: "string \<Rightarrow> string \<Rightarrow> string" where
  "reason_line ident reason = ''id = '' @ ident @ '', error = '' @ reason @ ''\<newline>''"

definition omitted_line :: "int \<Rightarrow> string" where
  "omitted_line k = ''(omitted '' @ Sprintf_d k @ '' more errors)''"

fun createBulkError_loop :: "BulkResponseItem list \<Rightarrow> int \<Rightarrow> int \<Rightarrow> string list \<Rightarrow> string list" where
  "createBulkError_loop [] i n reasons = reasons"
| "createBulkError_loop (item # rest) i n reasons =
     (let reasons1 = (case Error item of
                        Some d \<Rightarrow> reasons @ [reason_line (Id item) (Reason d)]
                      | None \<Rightarrow> reasons)
      in if i = maxBulkErrorReasons - 1
         then reasons1 @ [omitted_line (n - maxBulkErrorReasons)]
         else createBulkError_loop rest (i + 1) n reasons1)"

definition createBulkError :: "BulkResponse \<Rightarrow> error" where
  "createBulkError response =
     OtherError (''PutAll failed for some requests:\<newline>''
                 @ concat (createBulkError_loop (Failed response) 0 (int (length (Failed response))) []))"

definition PutAll ::
  "ElasticsearchKeyValueStore \<Rightarrow> 's Client \<Rightarrow> KeyValue list \<Rightarrow> 's \<Rightarrow> error option outcome \<times> 's" where
  "PutAll st c kvs s =
     (if length kvs = 0 then (Return None, s)
      else
        (case BulkDo c (map (\<lambda>kv. ((indexName st, typeName st, Key kv), string_of_bytes (Value kv))) kvs) s of
           ((response, err), s') \<Rightarrow>
             if err \<noteq> None then (Return err, s')
             else (case response of
                     None \<Rightarrow> (Panic, s')
                   | Some r \<Rightarrow>
                       if Errors r then (Return (Some (createBulkError r)), s')
                       else (Return None, s'))))"

text \<open>
  \<open>Delete\<close>: the type assertion \<open>err.(*elastic.Error)\<close> panics on a non-nil error of
  another type.
\<close>

definition Delete ::
  "ElasticsearchKeyValueStore \<Rightarrow> 's Client \<Rightarrow> string \<Rightarrow> 's \<Rightarrow> error option outcome \<times> 's" where
  "Delete st c key s =
     (case DeleteDo c (indexName st, typeName st, key) s of
        (err, s') \<Rightarrow>
          (case err of
             None \<Rightarrow> (Return err, s')
           | Some (ElasticError status txt) \<Rightarrow>
               if status = 404 then (Return None, s') else (Return err, s')
           | Some (OtherError txt) \<Rightarrow> (Panic, s')))"

section \<open>Clients: the log of requests, fixed replies, an ideal backend\<close>

text \<open>The requests a client can be asked to run.\<close>

datatype request =
    GetRequest doc_addr
  | MultiGetRequest "doc_addr list"
  | IndexRequest doc_addr string
  | BulkRequest "(doc_addr \<times> string) list"
  | DeleteRequest doc_addr

text \<open>
  \<open>logged c\<close> is the client \<open>c\<close> with a log beside its state: every request that is run
  is appended to the log, and answered by \<open>c\<close>.
\<close>

definition logged :: "'s Client \<Rightarrow> ('s \<times> request list) Client" where
  "logged c =
     \<lparr>GetDo = (\<lambda>a (s, log). case GetDo c a s of (r, s') \<Rightarrow> (r, (s', log @ [GetRequest a]))),
      MultiGetDo = (\<lambda>as (s, log). case MultiGetDo c as s of (r, s') \<Rightarrow> (r, (s', log @ [MultiGetRequest as]))),
      IndexDo = (\<lambda>a body (s, log). case IndexDo c a body s of (r, s') \<Rightarrow> (r, (s', log @ [IndexRequest a body]))),
      BulkDo = (\<lambda>reqs (s, log). case BulkDo c reqs s of (r, s') \<Rightarrow> (r, (s', log @ [BulkRequest reqs]))),
      DeleteDo = (\<lambda>a (s, log). case DeleteDo c a s of (r, s') \<Rightarrow> (r, (s', log @ [DeleteRequest a])))\<rparr>"

text \<open>A client without state that answers every request of a kind with one fixed reply.\<close>

definition cannedClient ::
  "GetResult option \<times> error option \<Rightarrow> MgetResponse option \<times> error option \<Rightarrow> error option
   \<Rightarrow> BulkResponse option \<times> error option \<Rightarrow> error option \<Rightarrow> unit Client" where
  "cannedClient g m i b d =
     \<lparr>GetDo = (\<lambda>a s. (g, s)),
      MultiGetDo = (\<lambda>as s. (m, s)),
      IndexDo = (\<lambda>a body s. (i, s)),
      BulkDo = (\<lambda>reqs s. (b, s)),
      DeleteDo = (\<lambda>a s. (d, s))\<rparr>"

text \<open>
  An ideal backend: its state maps an address to the stored document. A missing
  document is reported by the error of status 404 without details on get and delete, and
  by \<open>found = false\<close> in a multi-get; an empty body is refused, in a bulk
  request item by item. It gives the concrete runs of single operations.
\<close>

definition notFoundError :: error where
  "notFoundError = ElasticError 404 ''elastic: Error 404 (Not Found)''"

definition foundDoc :: "string \<Rightarrow> GetResult" where
  "foundDoc body = \<lparr>Found = True, Source = Some (Some body)\<rparr>"

definition missingDoc :: GetResult where
  "missingDoc = \<lparr>Found = False, Source = None\<rparr>"

definition idealBackend :: "(doc_addr \<rightharpoonup> string) Client" where
  "idealBackend =
     \<lparr>GetDo = (\<lambda>a m. (case m a of
                         None \<Rightarrow> (None, Some notFoundError)
                       | Some body \<Rightarrow> (Some (foundDoc body), None), m)),
      MultiGetDo = (\<lambda>as m.
         ((Some \<lparr>Docs = map (\<lambda>a. case m a of None \<Rightarrow> missingDoc | Some body \<Rightarrow> foundDoc body) as\<rparr>, None), m)),
      IndexDo = (\<lambda>a body m.
         if body = [] then (Some (ElasticError 400 ''elastic: Error 400 (Bad Request)''), m)
         else (None, m(a \<mapsto> body))),
      BulkDo = (\<lambda>reqs m.
         ((Some \<lparr>Errors = (filter (\<lambda>r. snd r = []) reqs \<noteq> []),
                  Failed = map (\<lambda>r. \<lparr>Id = snd (snd (fst r)), Error = Some \<lparr>Reason = ''empty body''\<rparr>\<rparr>)
                               (filter (\<lambda>r. snd r = []) reqs)\<rparr>, None),
          fold (\<lambda>r m. m(fst r \<mapsto> snd r)) (filter (\<lambda>r. snd r \<noteq> []) reqs) m)),
      DeleteDo = (\<lambda>a m. (case m a of
                            None \<Rightarrow> (Some notFoundError, m)
                          | Some body \<Rightarrow> (None, m(a := None))))\<rparr>"

text \<open>
  A get reports a missing document by the error of status 404 without details, or by a
  reply with \<open>found = false\<close>.
\<close>

definition reports_missing :: "GetResult option \<times> error option \<Rightarrow> bool" where
  "reports_missing reply \<longleftrightarrow>
     snd reply = Some notFoundError
     \<or> (snd reply = None \<and> (case fst reply of None \<Rightarrow> False | Some r \<Rightarrow> \<not> Found r))"

section \<open>A model of the client with its backend\<close>

text \<open>
  The round trips through the store depend on what the client and the server do
  between the calls, which is no code of the store. \<open>esClient\<close> models them as far as
  the store relies on them. Its state holds the indices that exist, the documents stored
  under an id, and the documents stored under an id that the server generated.

  \<^item> A get or a delete with an empty id is refused by the client's validation with an
    error that is no \<open>*elastic.Error\<close>; a multi-get that holds an empty id is refused.
  \<^item> A get or a delete in an index that does not exist is answered with status 404 and
    the details of the missing index; a missing document in an existing index with
    status 404 without details.
  \<^item> An index request, alone or as an item of a bulk request, is refused when its body
    is empty. Otherwise it creates the index when needed and stores the body: under the
    id when there is one, and under a generated id when the id is empty.
\<close>

record es_state =
  indices :: "string set"
  stored :: "doc_addr \<rightharpoonup> string"
  generated :: "(string \<times> string \<times> string) list"

definition noSuchIndexError :: error where
  "noSuchIndexError =
     ElasticError 404 ''elastic: Error 404 (Not Found): no such index [type=index_not_found_exception]''"

definition missingIdError :: error where
  "missingIdError = OtherError ''missing required fields: [Id]''"

definition badRequestError :: error where
  "badRequestError = ElasticError 400 ''elastic: Error 400 (Bad Request)''"

definition store_doc :: "doc_addr \<Rightarrow> string \<Rightarrow> es_state \<Rightarrow> es_state" where
  "store_doc a body s =
     (if snd (snd a) = []
      then s\<lparr>indices := insert (fst a) (indices s), generated := generated s @ [(fst a, fst (snd a), body)]\<rparr>
      else s\<lparr>indices := insert (fst a) (indices s), stored := (stored s)(a \<mapsto> body)\<rparr>)"

definition bulk_item :: "doc_addr \<times> string \<Rightarrow> es_state \<Rightarrow> es_state" where
  "bulk_item q s = (if snd q = [] then s else store_doc (fst q) (snd q) s)"

definition lookup_doc :: "es_state \<Rightarrow> doc_addr \<Rightarrow> GetResult" where
  "lookup_doc s a =
     (if fst a \<in> indices s
      then (case stored s a of None \<Rightarrow> missingDoc | Some body \<Rightarrow> foundDoc body)
      else missingDoc)"

definition esClient :: "es_state Client" where
  "esClient =
     \<lparr>GetDo = (\<lambda>a s.
         if snd (snd a) = [] then ((None, Some missingIdError), s)
         else if fst a \<notin> indices s then ((None, Some noSuchIndexError), s)
         else (case stored s a of
                 None \<Rightarrow> ((None, Some notFoundError), s)
               | Some body \<Rightarrow> ((Some (foundDoc body), None), s))),
      MultiGetDo = (\<lambda>as s.
         if filter (\<lambda>a. snd (snd a) = []) as \<noteq> [] then ((None, Some badRequestError), s)
         else ((Some \<lparr>Docs = map (lookup_doc s) as\<rparr>, None), s)),
      IndexDo = (\<lambda>a body s.
         if body = [] then (Some badRequestError, s) else (None, store_doc a body s)),
      BulkDo = (\<lambda>reqs s.
         ((Some \<lparr>Errors = (filter (\<lambda>q. snd q = []) reqs \<noteq> []),
                  Failed = map (\<lambda>q. \<lparr>Id = snd (snd (fst q)), Error = Some \<lparr>Reason = ''empty body''\<rparr>\<rparr>)
                               (filter (\<lambda>q. snd q = []) reqs)\<rparr>, None),
          fold bulk_item reqs s)),
      DeleteDo = (\<lambda>a s.
         if snd (snd a) = [] then (Some missingIdError, s)
         else if fst a \<notin> indices s then (Some noSuchIndexError, s)
         else (case stored s a of
                 None \<Rightarrow> (Some notFoundError, s)
               | Some body \<Rightarrow> (None, s\<lparr>stored := (stored s)(a := None)\<rparr>)))\<rparr>"

text \<open>
  The operations a caller can run between two calls, run for their effect on the backend,
  and the keys an operation may write: a \<open>Put\<close> or a \<open>Delete\<close> of the key, a \<open>PutAll\<close>
  that holds it, and, since a generated id is not known beforehand, every \<open>Put\<close> or
  \<open>PutAll\<close> with an empty key.
\<close>

datatype op =
    OpGet string
  | OpGetAll "string list"
  | OpPut string byteslice
  | OpPutAll "KeyValue list"
  | OpDelete string

fun run_op :: "ElasticsearchKeyValueStore \<Rightarrow> 's Client \<Rightarrow> op \<Rightarrow> 's \<Rightarrow> 's" where
  "run_op st c (OpGet key) s = snd (Get st c key s)"
| "run_op st c (OpGetAll keys) s = snd (GetAll st c keys s)"
| "run_op st c (OpPut key v) s = snd (Put st c key v s)"
| "run_op st c (OpPutAll kvs) s = snd (PutAll st c kvs s)"
| "run_op st c (OpDelete key) s = snd (Delete st c key s)"

definition run_ops :: "ElasticsearchKeyValueStore \<Rightarrow> 's Client \<Rightarrow> op list \<Rightarrow> 's \<Rightarrow> 's" where
  "run_ops st c ops s = fold (run_op st c) ops s"

fun may_write :: "string \<Rightarrow> op \<Rightarrow> bool" where
  "may_write k (OpGet key) = False"
| "may_write k (OpGetAll keys) = False"
| "may_write k (OpPut key v) = (key = k \<or> key = [])"
| "may_write k (OpPutAll kvs) = (k \<in> set (map Key kvs) \<or> [] \<in> set (map Key kvs))"
| "may_write k (OpDelete key) = (key = k)"

definition no_write :: "string \<Rightarrow> op list \<Rightarrow> bool" where
  "no_write k ops = (filter (may_write k) ops = [])"

section \<open>Notions the statements use\<close>

text \<open>
  The entries for the keys that were found: the key with the stored bytes, for every
  position whose document is found.
\<close>

definition found_entries :: "string list \<Rightarrow> GetResult list \<Rightarrow> KeyValue list" where
  "found_entries keys docs =
     map (\<lambda>(k, d). \<lparr>Key = k, Value = (case Source d of None \<Rightarrow> None | Some src \<Rightarrow> src)\<rparr>)
         (filter (\<lambda>(k, d). Found d) (zip keys docs))"


definition has_details :: "BulkResponseItem \<Rightarrow> bool" where
  "has_details item \<longleftrightarrow> Error item \<noteq> None"

definition item_line :: "BulkResponseItem \<Rightarrow> string" where
  "item_line item = (case Error item of None \<Rightarrow> [] | Some d \<Rightarrow> reason_line (Id item) (Reason d))"

section \<open>Concrete stores, states and batches\<close>

text \<open>
  The store of the runs below, an ideal backend's state with one dragon, a state of the
  model in which the index of the store exists, batches, and operations run in between.
\<close>

definition st0 :: ElasticsearchKeyValueStore where
  "st0 = \<lparr>indexName = ''kasper'', typeName = ''dragon''\<rparr>"

definition m1 :: "doc_addr \<rightharpoonup> string" where
  "m1 = [(''kasper'', ''dragon'', ''saphira'') \<mapsto> ''{\"color\":\"blue\"}'']"

definition es0 :: es_state where
  "es0 = \<lparr>indices = {''kasper''}, stored = Map.empty, generated = []\<rparr>"


definition ops_between :: "op list" where
  "ops_between = [OpGet ''draco'', OpPut ''draco'' (Some ''{}''), OpGetAll [''draco'', ''falkor''],
                  OpDelete ''draco'', OpPutAll [\<lparr>Key = ''smaug'', Value = Some ''{}''\<rparr>]]"

definition kvs7 :: "KeyValue list" where
  "kvs7 = [\<lparr>Key = ''k0'', Value = Some ''{}''\<rparr>, \<lparr>Key = ''k1'', Value = None\<rparr>,
           \<lparr>Key = ''k2'', Value = None\<rparr>, \<lparr>Key = ''k3'', Value = None\<rparr>,
           \<lparr>Key = ''k4'', Value = None\<rparr>, \<lparr>Key = ''k5'', Value = None\<rparr>,
           \<lparr>Key = ''k6'', Value = None\<rparr>]"

definition kvs10 :: "KeyValue list" where
  "kvs10 = [\<lparr>Key = ''k0'', Value = Some ''{}''\<rparr>, \<lparr>Key = ''k1'', Value = Some ''{}''\<rparr>,
            \<lparr>Key = ''k2'', Value = None\<rparr>, \<lparr>Key = ''k3'', Value = Some ''{}''\<rparr>,
            \<lparr>Key = ''k4'', Value = Some ''{}''\<rparr>, \<lparr>Key = ''k5'', Value = None\<rparr>,
            \<lparr>Key = ''k6'', Value = Some ''{}''\<rparr>, \<lparr>Key = ''k7'', Value = None\<rparr>,
            \<lparr>Key = ''k8'', Value = Some ''{}''\<rparr>, \<lparr>Key = ''k9'', Value = Some ''{}''\<rparr>]"

section \<open>Get\<close>

text \<open>
  A reply that reports the document missing, in either of the two forms, is turned into
  the absent value with a nil error.
\<close>

lemma Get_reports_missing:
  assumes "reports_missing (fst (GetDo c (indexName st, typeName st, key) s))"
  shows "fst (Get st c key s) = Return (None, None)"
proof -
  obtain rawValue err s' where g: "GetDo c (indexName st, typeName st, key) s = ((rawValue, err), s')"
    by (metis surj_pair)
  from assms g have "err = Some notFoundError \<or> (err = None \<and> (\<exists>r. rawValue = Some r \<and> \<not> Found r))"
    by (auto simp: reports_missing_def split: option.splits)
  then show ?thesis
  proof
    assume "err = Some notFoundError"
    with g show ?thesis by (simp add: Get_def Sprintf_s_def notFoundError_def)
  next
    assume "err = None \<and> (\<exists>r. rawValue = Some r \<and> \<not> Found r)"
    with g show ?thesis by (auto simp: Get_def Sprintf_s_def)
  qed
qed

text \<open>
  Claim C1. For every key, when the backend reports the key as not found (a reply of
  status 404), \<open>Get\<close> is to return the absent value with a nil error. \<open>Get\<close> does so
  for the reply whose text is the literal it compares with, and for a reply with
  \<open>found = false\<close>; it misses every other reply of status 404. Here the client answers
  with status 404 and the details of a missing index: \<open>Get\<close> returns the error to its
  caller, while \<open>Delete\<close>, which reads the status, takes the same reply for success.
\<close>

theorem Get_404_with_details:
  "fst (Get st0
         (cannedClient
            (None, Some (ElasticError 404
               ''elastic: Error 404 (Not Found): no such index [type=index_not_found_exception]''))
            (None, None) None (None, None)
            (Some (ElasticError 404
               ''elastic: Error 404 (Not Found): no such index [type=index_not_found_exception]'')))
         ''vorgansharax'' ())
   = Return (None, Some (ElasticError 404
               ''elastic: Error 404 (Not Found): no such index [type=index_not_found_exception]''))
   \<and> fst (Delete st0
         (cannedClient
            (None, Some (ElasticError 404
               ''elastic: Error 404 (Not Found): no such index [type=index_not_found_exception]''))
            (None, None) None (None, None)
            (Some (ElasticError 404
               ''elastic: Error 404 (Not Found): no such index [type=index_not_found_exception]'')))
         ''vorgansharax'' ())
   = Return None"
  by (simp add: Get_def Delete_def cannedClient_def Sprintf_s_def)

section \<open>Delete\<close>

text \<open>
  Claim C5. For every key that is absent from the store (the backend answers the delete
  with an \<open>*elastic.Error\<close> of status 404, whatever its text), \<open>Delete\<close> returns a nil
  error: deleting a key that does not exist is success.
\<close>

theorem Delete_not_found_success:
  assumes "DeleteDo c (indexName st, typeName st, key) s = (Some (ElasticError 404 msg), s')"
  shows "Delete st c key s = (Return None, s')"
  using assms by (simp add: Delete_def)

theorem Delete_not_found_success_witness:
  "DeleteDo idealBackend (indexName st0, typeName st0, ''falkor'') Map.empty
     = (Some (ElasticError 404 ''elastic: Error 404 (Not Found)''), Map.empty)
   \<and> Delete st0 idealBackend ''falkor'' Map.empty = (Return None, Map.empty)"
proof -
  have h: "DeleteDo idealBackend (indexName st0, typeName st0, ''falkor'') Map.empty
     = (Some (ElasticError 404 ''elastic: Error 404 (Not Found)''), Map.empty)"
    by (simp add: idealBackend_def notFoundError_def)
  from Delete_not_found_success [OF h] h show ?thesis by blast
qed

section \<open>GetAll\<close>

text \<open>
  The loop fills the positions of the found documents and leaves every other position
  as it was, when the documents fit into the slice and every found one has a source.
\<close>

lemma GetAll_loop_spec:
  "length kvs = length keys \<Longrightarrow> i + length docs \<le> length keys \<Longrightarrow>
   (\<forall>d \<in> set docs. Found d \<longrightarrow> Source d \<noteq> None) \<Longrightarrow>
   \<exists>out. GetAll_loop keys docs i kvs = Return out \<and> length out = length keys \<and>
     (\<forall>j < length keys. out ! j =
        (if i \<le> j \<and> j < i + length docs \<and> Found (docs ! (j - i))
         then \<lparr>Key = keys ! j, Value = the (Source (docs ! (j - i)))\<rparr>
         else kvs ! j))"
proof (induction docs arbitrary: i kvs)
  case Nil
  then show ?case by auto
next
  case (Cons doc docs)
  show ?case
  proof (cases "Found doc")
    case False
    from Cons.prems have a: "Suc i + length docs \<le> length keys" by simp
    from Cons.prems have b: "\<forall>d \<in> set docs. Found d \<longrightarrow> Source d \<noteq> None" by simp
    from Cons.IH [OF Cons.prems(1) a b] obtain out where
      o: "GetAll_loop keys docs (Suc i) kvs = Return out" "length out = length keys"
         "\<forall>j < length keys. out ! j =
            (if Suc i \<le> j \<and> j < Suc i + length docs \<and> Found (docs ! (j - Suc i))
             then \<lparr>Key = keys ! j, Value = the (Source (docs ! (j - Suc i)))\<rparr>
             else kvs ! j)" by blast
    have "\<forall>j < length keys. out ! j =
        (if i \<le> j \<and> j < i + length (doc # docs) \<and> Found ((doc # docs) ! (j - i))
         then \<lparr>Key = keys ! j, Value = the (Source ((doc # docs) ! (j - i)))\<rparr>
         else kvs ! j)"
    proof (intro allI impI)
      fix j assume j: "j < length keys"
      show "out ! j =
        (if i \<le> j \<and> j < i + length (doc # docs) \<and> Found ((doc # docs) ! (j - i))
         then \<lparr>Key = keys ! j, Value = the (Source ((doc # docs) ! (j - i)))\<rparr>
         else kvs ! j)"
      proof (cases "j = i")
        case True
        with o(3) j False show ?thesis by simp
      next
        case ne: False
        show ?thesis
        proof (cases "j < i")
          case True
          with o(3) j show ?thesis by simp
        next
          case False
          with ne have "Suc i \<le> j" by simp
          then obtain m where m: "j = Suc (i + m)" by (metis add_Suc less_eqE) 
          with o(3) j show ?thesis by simp
        qed
      qed
    qed
    with o False show ?thesis by simp
  next
    case True
    from Cons.prems obtain src where src: "Source doc = Some src" using True by auto
    let ?kvs = "kvs[i := \<lparr>Key = keys ! i, Value = src\<rparr>]"
    from Cons.prems have i: "i < length keys" "i < length kvs" by simp_all
    from Cons.prems have a: "Suc i + length docs \<le> length keys" by simp
    from Cons.prems have b: "\<forall>d \<in> set docs. Found d \<longrightarrow> Source d \<noteq> None" by simp
    have l: "length ?kvs = length keys" using Cons.prems(1) by simp
    from Cons.IH [OF l a b] obtain out where
      o: "GetAll_loop keys docs (Suc i) ?kvs = Return out" "length out = length keys"
         "\<forall>j < length keys. out ! j =
            (if Suc i \<le> j \<and> j < Suc i + length docs \<and> Found (docs ! (j - Suc i))
             then \<lparr>Key = keys ! j, Value = the (Source (docs ! (j - Suc i)))\<rparr>
             else ?kvs ! j)" by blast
    have "\<forall>j < length keys. out ! j =
        (if i \<le> j \<and> j < i + length (doc # docs) \<and> Found ((doc # docs) ! (j - i))
         then \<lparr>Key = keys ! j, Value = the (Source ((doc # docs) ! (j - i)))\<rparr>
         else kvs ! j)"
    proof (intro allI impI)
      fix j assume j: "j < length keys"
      show "out ! j =
        (if i \<le> j \<and> j < i + length (doc # docs) \<and> Found ((doc # docs) ! (j - i))
         then \<lparr>Key = keys ! j, Value = the (Source ((doc # docs) ! (j - i)))\<rparr>
         else kvs ! j)"
      proof (cases "j = i")
        case True
        with o(3) j True src i \<open>Found doc\<close> show ?thesis by simp
      next
        case ne: False
        show ?thesis
        proof (cases "j < i")
          case True
          with o(3) j show ?thesis by simp
        next
          case False
          with ne have "Suc i \<le> j" by simp
          then obtain m where m: "j = Suc (i + m)" by (metis add_Suc less_eqE) 
          with o(3) j show ?thesis by simp
        qed
      qed
    qed
    with o True src i show ?thesis by simp
  qed
qed

lemma GetAll_reply:
  assumes ne: "keys \<noteq> []"
    and m: "MultiGetDo c (map (\<lambda>key. (indexName st, typeName st, key)) keys) s = ((Some r, None), s')"
    and len: "length (Docs r) \<le> length keys"
    and src: "\<forall>d \<in> set (Docs r). Found d \<longrightarrow> Source d \<noteq> None"
  shows "\<exists>kvs. GetAll st c keys s = (Return (Some kvs, None), s') \<and> length kvs = length keys \<and>
           (\<forall>j < length keys. kvs ! j =
              (if j < length (Docs r) \<and> Found (Docs r ! j)
               then \<lparr>Key = keys ! j, Value = the (Source (Docs r ! j))\<rparr>
               else zeroKeyValue))"
proof -
  have l: "length (replicate (length keys) zeroKeyValue) = length keys" by simp
  from len have b: "0 + length (Docs r) \<le> length keys" by simp
  from GetAll_loop_spec [OF l b src] obtain out where
    o: "GetAll_loop keys (Docs r) 0 (replicate (length keys) zeroKeyValue) = Return out"
       "length out = length keys"
       "\<forall>j < length keys. out ! j =
          (if 0 \<le> j \<and> j < 0 + length (Docs r) \<and> Found (Docs r ! (j - 0))
           then \<lparr>Key = keys ! j, Value = the (Source (Docs r ! (j - 0)))\<rparr>
           else replicate (length keys) zeroKeyValue ! j)" by blast
  from ne m o(1) have "GetAll st c keys s = (Return (Some out, None), s')"
    by (simp add: GetAll_def)
  moreover from o(3) have "\<forall>j < length keys. out ! j =
              (if j < length (Docs r) \<and> Found (Docs r ! j)
               then \<lparr>Key = keys ! j, Value = the (Source (Docs r ! j))\<rparr>
               else zeroKeyValue)" by simp
  ultimately show ?thesis using o(2) by blast
qed

lemma GetAll_run:
  "GetAll st0 idealBackend [''saphira'', ''draco''] m1
     = (Return (Some [\<lparr>Key = ''saphira'', Value = Some ''{\"color\":\"blue\"}''\<rparr>, \<lparr>Key = [], Value = None\<rparr>], None), m1)"
  by (simp add: GetAll_def idealBackend_def st0_def m1_def foundDoc_def missingDoc_def zeroKeyValue_def)

lemma found_run:
  "found_entries [''saphira'', ''draco''] [foundDoc ''{\"color\":\"blue\"}'', missingDoc]
     = [\<lparr>Key = ''saphira'', Value = Some ''{\"color\":\"blue\"}''\<rparr>]"
  by (simp add: found_entries_def foundDoc_def missingDoc_def)

lemma m1_mget:
  "MultiGetDo idealBackend (map (\<lambda>key. (indexName st0, typeName st0, key)) [''saphira'', ''draco'']) m1
     = ((Some \<lparr>Docs = [foundDoc ''{\"color\":\"blue\"}'', missingDoc]\<rparr>, None), m1)"
  by (simp add: idealBackend_def st0_def m1_def)

text \<open>
  Claim C9. \<open>GetAll\<close> of the empty list of keys returns the empty (nil) result with a
  nil error and runs no request: the state of every client is left as it was, and so is
  the log of the requests run.
\<close>

theorem GetAll_empty:
  "GetAll st c [] s = (Return (None, None), s) \<and>
   GetAll st (logged c) [] (s, log) = (Return (None, None), (s, log))"
  by (simp add: GetAll_def)

theorem GetAll_empty_witness:
  "GetAll st0 idealBackend [] Map.empty = (Return (None, None), Map.empty) \<and>
   GetAll st0 (logged idealBackend) [] (Map.empty, [GetRequest (''kasper'', ''dragon'', ''saphira'')])
     = (Return (None, None), (Map.empty, [GetRequest (''kasper'', ''dragon'', ''saphira'')]))"
  using GetAll_empty [of st0 idealBackend Map.empty "[GetRequest (''kasper'', ''dragon'', ''saphira'')]"]
  by simp

text \<open>
  Claim C10. For every non-empty list of keys, when the multi-get succeeds (no error, a
  reply with one document per key in the order of the keys, every found document with
  its source), \<open>GetAll\<close> returns exactly \<open>len(keys)\<close> entries in the order of the keys:
  the entry at position \<open>i\<close> is the key \<open>keys[i]\<close> with the stored bytes when the
  document was found, and the zero-valued \<open>KeyValue\<close> when it was not.
\<close>

theorem GetAll_positional:
  assumes "keys \<noteq> []"
    and "MultiGetDo c (map (\<lambda>key. (indexName st, typeName st, key)) keys) s = ((Some r, None), s')"
    and "length (Docs r) = length keys"
    and "\<forall>d \<in> set (Docs r). Found d \<longrightarrow> Source d \<noteq> None"
  shows "\<exists>kvs. GetAll st c keys s = (Return (Some kvs, None), s') \<and> length kvs = length keys \<and>
           (\<forall>i < length keys. kvs ! i =
              (if Found (Docs r ! i)
               then \<lparr>Key = keys ! i, Value = the (Source (Docs r ! i))\<rparr>
               else zeroKeyValue))"
proof -
  from assms(3) have le: "length (Docs r) \<le> length keys" by simp
  from GetAll_reply [OF assms(1) assms(2) le assms(4)] assms(3) show ?thesis by simp
qed

theorem GetAll_positional_witness:
  "\<exists>kvs. GetAll st0 idealBackend [''saphira'', ''draco''] m1 = (Return (Some kvs, None), m1)
     \<and> length kvs = 2
     \<and> kvs ! 0 = \<lparr>Key = ''saphira'', Value = Some ''{\"color\":\"blue\"}''\<rparr>
     \<and> kvs ! 1 = zeroKeyValue"
proof -
  have ne: "[''saphira'', ''draco''] \<noteq> ([] :: string list)" by simp
  have len: "length (Docs \<lparr>Docs = [foundDoc ''{\"color\":\"blue\"}'', missingDoc]\<rparr>)
      = length [''saphira'', ''draco'']" by simp
  have src: "\<forall>d \<in> set (Docs \<lparr>Docs = [foundDoc ''{\"color\":\"blue\"}'', missingDoc]\<rparr>).
      Found d \<longrightarrow> Source d \<noteq> None" by (simp add: foundDoc_def missingDoc_def)
  from GetAll_positional [OF ne m1_mget len src] obtain kvs where
    k: "GetAll st0 idealBackend [''saphira'', ''draco''] m1 = (Return (Some kvs, None), m1)"
       "length kvs = length [''saphira'', ''draco'']"
       "\<forall>i < length [''saphira'', ''draco'']. kvs ! i =
          (if Found ([foundDoc ''{\"color\":\"blue\"}'', missingDoc] ! i)
           then \<lparr>Key = [''saphira'', ''draco''] ! i,
                 Value = the (Source ([foundDoc ''{\"color\":\"blue\"}'', missingDoc] ! i))\<rparr>
           else zeroKeyValue)" by auto
  from k(3) have "kvs ! 0 = \<lparr>Key = ''saphira'', Value = Some ''{\"color\":\"blue\"}''\<rparr>"
    by (simp add: foundDoc_def)
  moreover from k(3) have "kvs ! 1 = zeroKeyValue"
    by (simp add: missingDoc_def)
  ultimately show ?thesis using k(1) k(2) by simp
qed

text \<open>
  Claim C2, as amended. For every non-empty list of keys, when the multi-get succeeds
  (as above), \<open>GetAll\<close> returns a list of \<open>len(keys)\<close> entries that contains the entry
  of every key that was found (the key with its stored bytes) and, besides these, nothing
  but the zero-valued \<open>KeyValue\<close>, which stands in the place of each key that was not
  found.
\<close>

theorem GetAll_found_and_zero:
  assumes "keys \<noteq> []"
    and "MultiGetDo c (map (\<lambda>key. (indexName st, typeName st, key)) keys) s = ((Some r, None), s')"
    and "length (Docs r) = length keys"
    and "\<forall>d \<in> set (Docs r). Found d \<longrightarrow> Source d \<noteq> None"
  shows "\<exists>kvs. GetAll st c keys s = (Return (Some kvs, None), s') \<and> length kvs = length keys \<and>
           set (found_entries keys (Docs r)) \<subseteq> set kvs \<and>
           set kvs \<subseteq> set (found_entries keys (Docs r)) \<union> {zeroKeyValue} \<and>
           ((\<exists>d \<in> set (Docs r). \<not> Found d) \<longrightarrow> zeroKeyValue \<in> set kvs)"
proof -
  from assms(3) have le: "length (Docs r) \<le> length keys" by simp
  from GetAll_reply [OF assms(1) assms(2) le assms(4)] assms(3) obtain kvs where
    k: "GetAll st c keys s = (Return (Some kvs, None), s')" "length kvs = length keys"
       "\<forall>j < length keys. kvs ! j =
              (if Found (Docs r ! j)
               then \<lparr>Key = keys ! j, Value = the (Source (Docs r ! j))\<rparr>
               else zeroKeyValue)" by auto
  have a: "set (found_entries keys (Docs r)) \<subseteq> set kvs"
  proof
    fix x assume "x \<in> set (found_entries keys (Docs r))"
    then obtain key d where x: "x = \<lparr>Key = key, Value = (case Source d of None \<Rightarrow> None | Some src \<Rightarrow> src)\<rparr>"
      and z: "(key, d) \<in> set (zip keys (Docs r))" and f: "Found d"
      by (auto simp: found_entries_def)
    from z obtain j where j: "j < length keys" "keys ! j = key" "Docs r ! j = d"
      using assms(3) by (auto simp: in_set_zip)
    from z have "d \<in> set (Docs r)" by (rule set_zip_rightD)
    with f assms(4) obtain src where s: "Source d = Some src" by auto
    from k(3) j f s x have "kvs ! j = x" by simp
    with j(1) k(2) show "x \<in> set kvs" by (metis nth_mem)
  qed
  have b: "set kvs \<subseteq> set (found_entries keys (Docs r)) \<union> {zeroKeyValue}"
  proof
    fix x assume "x \<in> set kvs"
    then obtain j where j: "j < length keys" "kvs ! j = x"
      using k(2) by (auto simp: in_set_conv_nth)
    show "x \<in> set (found_entries keys (Docs r)) \<union> {zeroKeyValue}"
    proof (cases "Found (Docs r ! j)")
      case False
      with k(3) j show ?thesis by simp
    next
      case True
      from j(1) assms(3) have d: "Docs r ! j \<in> set (Docs r)" by simp
      with True assms(4) obtain src where s: "Source (Docs r ! j) = Some src" by auto
      from j(1) assms(3) have "(keys ! j, Docs r ! j) \<in> set (zip keys (Docs r))"
        by (auto simp: in_set_zip)
      with True have "\<lparr>Key = keys ! j, Value = (case Source (Docs r ! j) of None \<Rightarrow> None | Some src \<Rightarrow> src)\<rparr>
          \<in> set (found_entries keys (Docs r))"
        by (force simp: found_entries_def)
      with k(3) j True s show ?thesis by simp
    qed
  qed
  have c: "(\<exists>d \<in> set (Docs r). \<not> Found d) \<longrightarrow> zeroKeyValue \<in> set kvs"
  proof
    assume "\<exists>d \<in> set (Docs r). \<not> Found d"
    then obtain j where j: "j < length (Docs r)" "\<not> Found (Docs r ! j)"
      by (auto simp: in_set_conv_nth)
    with k(3) assms(3) have "kvs ! j = zeroKeyValue" by simp
    with j(1) assms(3) k(2) show "zeroKeyValue \<in> set kvs" by (metis nth_mem)
  qed
  from k(1) k(2) a b c show ?thesis by blast
qed

theorem GetAll_found_and_zero_witness:
  "\<exists>kvs. GetAll st0 idealBackend [''saphira'', ''draco''] m1 = (Return (Some kvs, None), m1)
     \<and> length kvs = 2
     \<and> \<lparr>Key = ''saphira'', Value = Some ''{\"color\":\"blue\"}''\<rparr> \<in> set kvs
     \<and> zeroKeyValue \<in> set kvs
     \<and> set kvs \<subseteq> {\<lparr>Key = ''saphira'', Value = Some ''{\"color\":\"blue\"}''\<rparr>, zeroKeyValue}"
proof -
  have ne: "[''saphira'', ''draco''] \<noteq> ([] :: string list)" by simp
  have len: "length (Docs \<lparr>Docs = [foundDoc ''{\"color\":\"blue\"}'', missingDoc]\<rparr>)
      = length [''saphira'', ''draco'']" by simp
  have src: "\<forall>d \<in> set (Docs \<lparr>Docs = [foundDoc ''{\"color\":\"blue\"}'', missingDoc]\<rparr>).
      Found d \<longrightarrow> Source d \<noteq> None" by (simp add: foundDoc_def missingDoc_def)
  have ex: "\<exists>d \<in> set (Docs \<lparr>Docs = [foundDoc ''{\"color\":\"blue\"}'', missingDoc]\<rparr>). \<not> Found d"
    by (simp add: missingDoc_def)
  from GetAll_found_and_zero [OF ne m1_mget len src] ex show ?thesis
    by (auto simp: found_run)
qed

text \<open>
  Claim C2 as stated fails: of the keys \<open>saphira\<close>, which is stored, and \<open>draco\<close>, which
  is not, \<open>GetAll\<close> returns two entries, the second the zero-valued \<open>KeyValue\<close>, and not
  the one entry of the key that was found.
\<close>

theorem GetAll_only_found_counterexample:
  "fst (GetAll st0 idealBackend [''saphira'', ''draco''] m1)
     = Return (Some [\<lparr>Key = ''saphira'', Value = Some ''{\"color\":\"blue\"}''\<rparr>, \<lparr>Key = [], Value = None\<rparr>], None)
   \<and> fst (MultiGetDo idealBackend [(''kasper'', ''dragon'', ''saphira''), (''kasper'', ''dragon'', ''draco'')] m1)
     = (Some \<lparr>Docs = [foundDoc ''{\"color\":\"blue\"}'', missingDoc]\<rparr>, None)
   \<and> set [\<lparr>Key = ''saphira'', Value = Some ''{\"color\":\"blue\"}''\<rparr>, \<lparr>Key = [], Value = None\<rparr>]
     \<noteq> set (found_entries [''saphira'', ''draco''] [foundDoc ''{\"color\":\"blue\"}'', missingDoc])"
  by (simp add: GetAll_run found_run) (simp add: idealBackend_def m1_def)

section \<open>PutAll\<close>

text \<open>
  The loop of \<open>createBulkError\<close>, started at an index up to 4: the lines of the items with
  error details among those up to index 4, and the tail when index 4 is reached.
\<close>

lemma createBulkError_loop_spec:
  "0 \<le> i \<Longrightarrow> i \<le> 4 \<Longrightarrow>
   createBulkError_loop items i n reasons =
     reasons @ map item_line (filter has_details (take (nat (5 - i)) items))
       @ (if nat (5 - i) \<le> length items then [omitted_line (n - 5)] else [])"
proof (induction items arbitrary: i reasons)
  case Nil
  then show ?case by simp
next
  case (Cons item rest)
  have tk: "take (nat (5 - i)) (item # rest) = item # take (nat (4 - i)) rest"
    using Cons.prems by (simp add: take_Cons' nat_diff_distrib)
  show ?case
  proof (cases "i = 4")
    case True
    then show ?thesis
      by (cases "Error item") (simp_all add: maxBulkErrorReasons_def has_details_def item_line_def)
  next
    case False
    with Cons.prems have i: "0 \<le> i + 1" "i + 1 \<le> 4" by simp_all
    have n: "nat (5 - (i + 1)) = nat (4 - i)" by (simp add: algebra_simps)
    have le: "(nat (5 - i) \<le> length (item # rest)) = (nat (4 - i) \<le> length rest)"
      using Cons.prems by auto
    show ?thesis
      using False Cons.IH [OF i] tk le
      by (cases "Error item") (simp_all add: maxBulkErrorReasons_def has_details_def item_line_def n)
  qed
qed

lemma createBulkError_message:
  "createBulkError r =
     OtherError (''PutAll failed for some requests:\<newline>''
       @ concat (map item_line (filter has_details (take 5 (Failed r))))
       @ (if 5 \<le> length (Failed r) then omitted_line (int (length (Failed r)) - 5) else []))"
  using createBulkError_loop_spec [of 0 "Failed r" "int (length (Failed r))" "[]"]
  by (simp add: createBulkError_def)


text \<open>
  Claim C3, as amended. For every non-empty batch whose bulk request returns a reply
  with \<open>Errors\<close> set (and no error of the request itself), \<open>PutAll\<close> returns one
  aggregated error. Its message is the heading, then one line with id and reason for each
  of the first five failed items that carries error details, and then, only when five or
  more items failed, the tail \<open>(omitted N more errors)\<close> with \<open>N\<close> the number of failed
  items minus five. With fewer than five failed items there is no tail.
\<close>

theorem PutAll_partial_failure:
  assumes "kvs \<noteq> []"
    and "BulkDo c (map (\<lambda>kv. ((indexName st, typeName st, Key kv), string_of_bytes (Value kv))) kvs) s
           = ((Some r, None), s')"
    and "Errors r"
  shows "PutAll st c kvs s =
     (Return (Some (OtherError (''PutAll failed for some requests:\<newline>''
        @ concat (map item_line (filter has_details (take 5 (Failed r))))
        @ (if 5 \<le> length (Failed r) then omitted_line (int (length (Failed r)) - 5) else [])))), s')"
  using assms by (simp add: PutAll_def createBulkError_message)

theorem PutAll_partial_failure_witness:
  "PutAll st0 idealBackend kvs7 Map.empty =
     (Return (Some (OtherError
        ''PutAll failed for some requests:\<newline>id = k1, error = empty body\<newline>id = k2, error = empty body\<newline>id = k3, error = empty body\<newline>id = k4, error = empty body\<newline>id = k5, error = empty body\<newline>(omitted 1 more errors)'')),
      [(''kasper'', ''dragon'', ''k0'') \<mapsto> ''{}''])"
proof -
  let ?r = "\<lparr>Errors = True,
             Failed = map (\<lambda>k. \<lparr>Id = k, Error = Some \<lparr>Reason = ''empty body''\<rparr>\<rparr>)
                        [''k1'', ''k2'', ''k3'', ''k4'', ''k5'', ''k6'']\<rparr>"
  have ne: "kvs7 \<noteq> []" by (simp add: kvs7_def)
  have b: "BulkDo idealBackend
             (map (\<lambda>kv. ((indexName st0, typeName st0, Key kv), string_of_bytes (Value kv))) kvs7) Map.empty
           = ((Some ?r, None), [(''kasper'', ''dragon'', ''k0'') \<mapsto> ''{}''])"
    by (simp add: idealBackend_def kvs7_def st0_def string_of_bytes_def)
  have e: "Errors ?r" by simp
  from PutAll_partial_failure [OF ne b e] show ?thesis
    by (simp add: has_details_def item_line_def reason_line_def omitted_line_def Sprintf_d_def Itoa_nat.simps)
qed

text \<open>
  Claim C3 as stated fails: a \<open>PutAll\<close> of ten keys of which three fail returns the
  heading and the three lines, and no tail.
\<close>

theorem PutAll_three_of_ten_counterexample:
  "fst (PutAll st0 idealBackend kvs10 Map.empty)
     = Return (Some (OtherError
         ''PutAll failed for some requests:\<newline>id = k2, error = empty body\<newline>id = k5, error = empty body\<newline>id = k7, error = empty body\<newline>''))
   \<and> \<not> sublist ''omitted''
         ''PutAll failed for some requests:\<newline>id = k2, error = empty body\<newline>id = k5, error = empty body\<newline>id = k7, error = empty body\<newline>''"
proof
  show "fst (PutAll st0 idealBackend kvs10 Map.empty)
     = Return (Some (OtherError
         ''PutAll failed for some requests:\<newline>id = k2, error = empty body\<newline>id = k5, error = empty body\<newline>id = k7, error = empty body\<newline>''))"
    by (simp add: PutAll_def idealBackend_def kvs10_def st0_def string_of_bytes_def
        createBulkError_def maxBulkErrorReasons_def reason_line_def)
  show "\<not> sublist ''omitted''
         ''PutAll failed for some requests:\<newline>id = k2, error = empty body\<newline>id = k5, error = empty body\<newline>id = k7, error = empty body\<newline>''"
    by code_simp
qed

section \<open>Round trips on the model of the backend\<close>

lemma store_doc_other:
  "a \<noteq> b \<Longrightarrow> snd (snd a) \<noteq> [] \<Longrightarrow> stored (store_doc a body s) b = stored s b"
  by (simp add: store_doc_def)

lemma store_doc_indices: "indices s \<subseteq> indices (store_doc a body s)"
  by (auto simp: store_doc_def)

lemma fold_bulk_item_indices: "indices s \<subseteq> indices (fold bulk_item reqs s)"
proof (induction reqs arbitrary: s)
  case Nil show ?case by simp
next
  case (Cons q reqs)
  have "indices s \<subseteq> indices (bulk_item q s)"
    using store_doc_indices by (simp add: bulk_item_def)
  with Cons [of "bulk_item q s"] show ?case by auto
qed

lemma fold_bulk_item_other:
  "b \<notin> fst ` set reqs \<Longrightarrow> stored (fold bulk_item reqs s) b = stored s b"
proof (induction reqs arbitrary: s)
  case Nil show ?case by simp
next
  case (Cons q reqs)
  have "stored (bulk_item q s) b = stored s b"
    using Cons.prems by (cases "snd (snd (fst q)) = []") (auto simp: bulk_item_def store_doc_def)
  with Cons show ?case by simp
qed

lemma run_op_indices: "indices s \<subseteq> indices (run_op st esClient op s)"
proof (cases op)
  case (OpGet key)
  then show ?thesis by (simp add: Get_def esClient_def split: option.splits)
next
  case (OpGetAll keys)
  then show ?thesis by (simp add: GetAll_def esClient_def split: outcome.splits)
next
  case (OpPut key v)
  then show ?thesis using store_doc_indices by (simp add: Put_def esClient_def)
next
  case (OpPutAll kvs)
  then show ?thesis using fold_bulk_item_indices by (simp add: PutAll_def esClient_def)
next
  case (OpDelete key)
  then show ?thesis by (simp add: Delete_def esClient_def notFoundError_def noSuchIndexError_def missingIdError_def split: option.splits)
qed

lemma run_op_docs:
  assumes "\<not> may_write k op" and "k \<noteq> []"
  shows "stored (run_op st esClient op s) (indexName st, typeName st, k) = stored s (indexName st, typeName st, k)"
proof (cases op)
  case (OpGet key)
  then show ?thesis by (simp add: Get_def esClient_def split: option.splits)
next
  case (OpGetAll keys)
  then show ?thesis by (simp add: GetAll_def esClient_def split: outcome.splits)
next
  case (OpPut key v)
  with assms have "key \<noteq> k" "key \<noteq> []" by simp_all
  then have "stored (store_doc (indexName st, typeName st, key) body s) (indexName st, typeName st, k)
      = stored s (indexName st, typeName st, k)" for body
    by (simp add: store_doc_other)
  with OpPut show ?thesis by (simp add: Put_def esClient_def)
next
  case (OpPutAll kvs)
  with assms have "k \<notin> Key ` set kvs" by simp
  then have "(indexName st, typeName st, k) \<notin>
     fst ` set (map (\<lambda>kv. ((indexName st, typeName st, Key kv), string_of_bytes (Value kv))) kvs)"
    by auto
  then have "stored (fold bulk_item (map (\<lambda>kv. ((indexName st, typeName st, Key kv), string_of_bytes (Value kv))) kvs) s)
       (indexName st, typeName st, k) = stored s (indexName st, typeName st, k)"
    by (rule fold_bulk_item_other)
  with OpPutAll show ?thesis by (simp add: PutAll_def esClient_def)
next
  case (OpDelete key)
  with assms have "key \<noteq> k" by simp
  with OpDelete show ?thesis
    by (simp add: Delete_def esClient_def notFoundError_def noSuchIndexError_def missingIdError_def split: option.splits)
qed

lemma run_ops_frame:
  assumes "no_write k ops" and "k \<noteq> []"
  shows "stored (run_ops st esClient ops s) (indexName st, typeName st, k) = stored s (indexName st, typeName st, k)
         \<and> indices s \<subseteq> indices (run_ops st esClient ops s)"
  using assms(1)
proof (induction ops arbitrary: s)
  case Nil
  show ?case by (simp add: run_ops_def)
next
  case (Cons op ops)
  from Cons.prems have o: "\<not> may_write k op" and r: "no_write k ops"
    by (auto simp: no_write_def split: if_splits)
  from Cons.IH [OF r, of "run_op st esClient op s"] run_op_docs [OF o assms(2), of st s] run_op_indices [of s st op]
  show ?case by (auto simp: run_ops_def)
qed

lemma run_ops_indices: "indices s \<subseteq> indices (run_ops st esClient ops s)"
proof (induction ops arbitrary: s)
  case Nil
  show ?case by (simp add: run_ops_def)
next
  case (Cons op ops)
  from Cons [of "run_op st esClient op s"] run_op_indices [of s st op]
  show ?case by (auto simp: run_ops_def)
qed


lemma Get_not_stored:
  assumes "k \<noteq> []" and "indexName st \<in> indices s"
    and "stored s (indexName st, typeName st, k) = None"
  shows "fst (Get st esClient k s) = Return (None, None)"
proof -
  from assms have "reports_missing (fst (GetDo esClient (indexName st, typeName st, k) s))"
    by (simp add: esClient_def reports_missing_def)
  then show ?thesis by (rule Get_reports_missing)
qed

lemma Put_success:
  assumes "Put st esClient k v s = (Return None, s1)"
  shows "string_of_bytes v \<noteq> [] \<and> s1 = store_doc (indexName st, typeName st, k) (string_of_bytes v) s"
  using assms by (auto simp: Put_def esClient_def badRequestError_def split: if_splits)

lemma Delete_success:
  assumes "Delete st esClient k s = (Return None, s2)" and "indexName st \<in> indices s"
  shows "k \<noteq> [] \<and> stored s2 (indexName st, typeName st, k) = None \<and> indices s2 = indices s"
  using assms
  by (auto simp: Delete_def esClient_def notFoundError_def noSuchIndexError_def missingIdError_def
      split: if_splits option.splits)





text \<open>
  Claim C7. For every key \<open>k\<close> and value \<open>v\<close>, after a \<open>Put\<close> of \<open>k\<close> and \<open>v\<close> that
  returned a nil error, a \<open>Delete\<close> of \<open>k\<close> that returned a nil error, and no write of
  \<open>k\<close> by the operations run before and after the \<open>Delete\<close>, \<open>Get\<close> of \<open>k\<close> returns
  the absent value with a nil error. The \<open>Put\<close> is what makes the index exist, so that
  the missing document is reported without details.
\<close>

theorem Put_Delete_Get:
  assumes p: "Put st esClient k v s = (Return None, s1)"
    and n1: "no_write k ops1"
    and d: "Delete st esClient k (run_ops st esClient ops1 s1) = (Return None, s2)"
    and n2: "no_write k ops2"
  shows "fst (Get st esClient k (run_ops st esClient ops2 s2)) = Return (None, None)"
proof -
  from Put_success [OF p] have "indexName st \<in> indices s1" by (auto simp: store_doc_def)
  with run_ops_indices [of s1 st ops1] have i: "indexName st \<in> indices (run_ops st esClient ops1 s1)" by auto
  from Delete_success [OF d i] have k: "k \<noteq> []"
    and d2: "stored s2 (indexName st, typeName st, k) = None" and i2: "indexName st \<in> indices s2"
    using i by simp_all
  from run_ops_frame [OF n2 k, of st s2] d2 i2
  have "stored (run_ops st esClient ops2 s2) (indexName st, typeName st, k) = None"
    and "indexName st \<in> indices (run_ops st esClient ops2 s2)" by auto
  with k show ?thesis by (simp add: Get_not_stored)
qed

theorem Put_Delete_Get_witness:
  "no_write ''falkor'' ops_between
   \<and> fst (Put st0 esClient ''falkor'' (Some ''{\"color\":\"white\"}'') es0) = Return None
   \<and> fst (Delete st0 esClient ''falkor''
           (run_ops st0 esClient ops_between (snd (Put st0 esClient ''falkor'' (Some ''{\"color\":\"white\"}'') es0))))
       = Return None
   \<and> fst (Get st0 esClient ''falkor''
           (run_ops st0 esClient ops_between
              (snd (Delete st0 esClient ''falkor''
                 (run_ops st0 esClient ops_between
                    (snd (Put st0 esClient ''falkor'' (Some ''{\"color\":\"white\"}'') es0)))))))
       = Return (None, None)"
proof -
  let ?s1 = "snd (Put st0 esClient ''falkor'' (Some ''{\"color\":\"white\"}'') es0)"
  let ?s2 = "snd (Delete st0 esClient ''falkor'' (run_ops st0 esClient ops_between ?s1))"
  have n: "no_write ''falkor'' ops_between" by (simp add: no_write_def ops_between_def)
  have f: "fst (Put st0 esClient ''falkor'' (Some ''{\"color\":\"white\"}'') es0) = Return None"
    by (simp add: Put_def esClient_def string_of_bytes_def)
  have p: "Put st0 esClient ''falkor'' (Some ''{\"color\":\"white\"}'') es0 = (Return None, ?s1)"
    by (rule prod_eqI) (simp_all add: f)
  have g: "fst (Delete st0 esClient ''falkor'' (run_ops st0 esClient ops_between ?s1)) = Return None"
    by (simp add: run_ops_def Get_def GetAll_def Put_def PutAll_def Delete_def esClient_def es0_def st0_def
        string_of_bytes_def store_doc_def bulk_item_def lookup_doc_def Sprintf_s_def notFoundError_def
        noSuchIndexError_def missingIdError_def badRequestError_def foundDoc_def missingDoc_def
        ops_between_def)
  have d: "Delete st0 esClient ''falkor'' (run_ops st0 esClient ops_between ?s1) = (Return None, ?s2)"
    by (rule prod_eqI) (simp_all add: g)
  from Put_Delete_Get [OF p n d n] n f g show ?thesis by blast
qed




section \<open>Keys are not validated\<close>




end
